theory Spec2Isabelle
  imports Complex_Main "HOL-Library.Monad_Syntax"
begin

section \<open>The Metropolis-Hastings kernel of the MCMC cookbook notebook\<close>

text \<open>
  The notebook \<^verbatim>\<open>docs/cookbook/inactive/inference/mcmc.ipynb\<close> defines
  \<^verbatim>\<open>metropolis_hastings_move\<close>, \<^verbatim>\<open>prop\<close>, \<^verbatim>\<open>mh\<close>, \<^verbatim>\<open>custom_mh\<close> and
  \<^verbatim>\<open>run_inference\<close> on top of JAX and GenJAX. The five functions are embedded below line by
  line. What they call in JAX (\<^verbatim>\<open>jax.random.split\<close>, \<^verbatim>\<open>jax.random.uniform\<close>, \<^verbatim>\<open>jnp.log\<close>,
  float arithmetic, \<^verbatim>\<open>jax.lax.cond\<close>, \<^verbatim>\<open>jax.lax.scan\<close>) and in GenJAX (the generative function
  interface of the model and of the proposal, \<^verbatim>\<open>Diff.no_change\<close>, \<^verbatim>\<open>normal\<close>) is library code:
  it is either a parameter of the embedding or modelled from its documented behaviour, as said
  at each definition. A library call that raises is the value \<open>None\<close>, which every caller
  passes on, as a Python exception would be; so is a conditional or a scan of JAX whose
  values do not have the tree structures it requires.
\<close>

subsection \<open>Floating-point values\<close>

text \<open>
  A JAX scalar is an IEEE 754 value: a finite number, one of the two infinities, or NaN.
  Addition, subtraction and comparison act on the special values as the standard says.
  The result of an operation on finite values is the exact result rounded, where the
  rounding (which may overflow to an infinity) is a parameter \<open>R\<close>, and the rounded
  logarithm of a positive finite value is a parameter \<open>L\<close>: nothing below depends on any
  property of either.
\<close>

datatype jfloat = NegInf | Fin real | PosInf | NaN

fun fadd :: "(real \<Rightarrow> jfloat) \<Rightarrow> jfloat \<Rightarrow> jfloat \<Rightarrow> jfloat" where
  "fadd R NaN y = NaN"
| "fadd R x NaN = NaN"
| "fadd R PosInf NegInf = NaN"
| "fadd R NegInf PosInf = NaN"
| "fadd R PosInf y = PosInf"
| "fadd R x PosInf = PosInf"
| "fadd R NegInf y = NegInf"
| "fadd R x NegInf = NegInf"
| "fadd R (Fin a) (Fin b) = R (a + b)"

fun fneg :: "jfloat \<Rightarrow> jfloat" where
  "fneg NaN = NaN"
| "fneg PosInf = NegInf"
| "fneg NegInf = PosInf"
| "fneg (Fin a) = Fin (- a)"

definition fsub :: "(real \<Rightarrow> jfloat) \<Rightarrow> jfloat \<Rightarrow> jfloat \<Rightarrow> jfloat" where
  "fsub R x y = fadd R x (fneg y)"

fun flt :: "jfloat \<Rightarrow> jfloat \<Rightarrow> bool" where
  "flt NaN y = False"
| "flt x NaN = False"
| "flt x NegInf = False"
| "flt PosInf y = False"
| "flt NegInf y = True"
| "flt x PosInf = True"
| "flt (Fin a) (Fin b) = (a < b)"

fun flog :: "(real \<Rightarrow> real) \<Rightarrow> jfloat \<Rightarrow> jfloat" where
  "flog L NaN = NaN"
| "flog L NegInf = NaN"
| "flog L PosInf = PosInf"
| "flog L (Fin a) = (if a < 0 then NaN else if a = 0 then NegInf else Fin (L a))"





subsection \<open>The JAX primitives\<close>

text \<open>
  The pseudo-random number generator and the rounding of the platform are parameters:
  \<open>threefry_split J key num i\<close> is the \<open>i\<close>-th of the \<open>num\<close> keys that
  \<^verbatim>\<open>jax.random.split(key, num)\<close> returns, \<open>uniform J key\<close> is
  \<^verbatim>\<open>jax.random.uniform(key)\<close>, a value of \<open>[0, 1)\<close>.
\<close>

record 'k jax =
  threefry_split :: "'k \<Rightarrow> nat \<Rightarrow> nat \<Rightarrow> 'k"
  uniform :: "'k \<Rightarrow> jfloat"
  fround :: "real \<Rightarrow> jfloat"
  log_rounded :: "real \<Rightarrow> real"

text \<open>\<^verbatim>\<open>jax.random.split(key, num)\<close> returns an array of \<open>num\<close> keys (\<open>num\<close> is 2 by default).\<close>

definition jax_random_split :: "'k jax \<Rightarrow> 'k \<Rightarrow> nat \<Rightarrow> 'k list" where
  "jax_random_split J key num = map (threefry_split J key num) [0..<num]"

text \<open>The Python unpackings \<^verbatim>\<open>a, b = xs\<close> and \<^verbatim>\<open>a, b, c = xs\<close> raise unless the lengths match.\<close>

fun unpack2 :: "'a list \<Rightarrow> ('a \<times> 'a) option" where
  "unpack2 [a, b] = Some (a, b)"
| "unpack2 xs = None"

fun unpack3 :: "'a list \<Rightarrow> ('a \<times> 'a \<times> 'a) option" where
  "unpack3 [a, b, c] = Some (a, b, c)"
| "unpack3 xs = None"

definition jnp_log :: "'k jax \<Rightarrow> jfloat \<Rightarrow> jfloat" where
  "jnp_log J x = flog (log_rounded J) x"

definition jnp_sub :: "'k jax \<Rightarrow> jfloat \<Rightarrow> jfloat \<Rightarrow> jfloat" where
  "jnp_sub J x y = fsub (fround J) x y"

definition jnp_add :: "'k jax \<Rightarrow> jfloat \<Rightarrow> jfloat \<Rightarrow> jfloat" where
  "jnp_add J x y = fadd (fround J) x y"

text \<open>
  \<^verbatim>\<open>jax.lax.cond(pred, true_fun, false_fun)\<close> evaluates both functions when it is traced and
  raises a \<^verbatim>\<open>TypeError\<close> unless their outputs have the same tree structure; it returns the
  output that \<open>pred\<close> selects. Here \<open>treedef\<close> gives the tree structure of an output.
\<close>

definition lax_cond :: "('a \<Rightarrow> 's) \<Rightarrow> bool \<Rightarrow> 'a \<Rightarrow> 'a \<Rightarrow> 'a option" where
  "lax_cond treedef pred true_out false_out =
     (if treedef true_out = treedef false_out
      then Some (if pred then true_out else false_out)
      else None)"

text \<open>
  \<^verbatim>\<open>jax.lax.scan(f, init, xs)\<close>, after the reference implementation of its documentation:
  \<^verbatim>\<open>
  carry = init; ys = []
  for x in xs:
    carry, y = f(carry, x)
    ys.append(y)
  return carry, np.stack(ys)
  \<close>
  and its two requirements. The carry that \<open>f\<close> returns must have the tree structure of the
  carry it was given, or the scan raises. And before any step runs, at any length of \<open>xs\<close>,
  also zero, the scan traces \<open>f\<close> once on the initial carry and an abstract input: it raises
  if this application raises or changes the tree structure of the carry. Traced code cannot
  branch on the value of its input, so whether it raises does not depend on the input it is
  traced with; \<open>x_abstract\<close> stands for that input.
\<close>

fun scan_loop ::
  "('c \<Rightarrow> 's) \<Rightarrow> ('c \<Rightarrow> 'x \<Rightarrow> ('c \<times> 'y) option) \<Rightarrow> 'c \<Rightarrow> 'y list \<Rightarrow> 'x list
     \<Rightarrow> ('c \<times> 'y list) option" where
  "scan_loop treedef f carry ys [] = Some (carry, ys)"
| "scan_loop treedef f carry ys (x # xs) =
     (case f carry x of
        None \<Rightarrow> None
      | Some (carry', y) \<Rightarrow>
          if treedef carry' = treedef carry
          then scan_loop treedef f carry' (ys @ [y]) xs
          else None)"

definition scan ::
  "('c \<Rightarrow> 's) \<Rightarrow> 'x \<Rightarrow> ('c \<Rightarrow> 'x \<Rightarrow> ('c \<times> 'y) option) \<Rightarrow> 'c \<Rightarrow> 'x list
     \<Rightarrow> ('c \<times> 'y list) option" where
  "scan treedef x_abstract f init xs =
     (case f init x_abstract of
        None \<Rightarrow> None
      | Some (carry', y) \<Rightarrow>
          if treedef carry' = treedef init
          then scan_loop treedef f init [] xs
          else None)"

subsection \<open>The GenJAX interface\<close>

text \<open>
  A choice map sends addresses to values. A trace holds the arguments of the model, its
  choices, its return value and its score. The notebook reads a trace through
  \<^verbatim>\<open>get_args()\<close> and \<^verbatim>\<open>get_choices()\<close> only.
\<close>

type_synonym address = string
type_synonym choicemap = "address \<rightharpoonup> jfloat"

record 'm trace =
  get_args :: 'm
  get_choices :: choicemap
  get_retval :: jfloat
  get_score :: jfloat

text \<open>\<^verbatim>\<open>Diff.no_change(v)\<close> tags the value \<open>v\<close> as unchanged.\<close>

datatype change_tangent = NoChange | UnknownChange

datatype 'a diff = Diff 'a change_tangent

definition no_change :: "'a \<Rightarrow> 'a diff" where
  "no_change v = Diff v NoChange"

text \<open>
  The model and the proposal are generative functions, used through
  \<^verbatim>\<open>importance(key, constraints, args)\<close>, \<^verbatim>\<open>update(key, trace, choices, argdiffs)\<close>,
  \<^verbatim>\<open>propose(key, args)\<close> and \<^verbatim>\<open>assess(choices, args)\<close>. The proposal's arguments are the
  tuple \<^verbatim>\<open>(trace, *proposal_args)\<close>, here the pair of the trace and the tuple \<open>proposal_args\<close>.
\<close>

record ('k, 'm) model =
  importance :: "'k \<Rightarrow> choicemap \<Rightarrow> 'm \<Rightarrow> ('m trace \<times> jfloat) option"
  update :: "'k \<Rightarrow> 'm trace \<Rightarrow> choicemap \<Rightarrow> 'm diff
               \<Rightarrow> ('m trace \<times> jfloat \<times> jfloat diff \<times> choicemap) option"

record ('k, 'm, 'pa) proposal =
  propose :: "'k \<Rightarrow> 'm trace \<times> 'pa \<Rightarrow> (choicemap \<times> jfloat \<times> jfloat) option"
  assess :: "choicemap \<Rightarrow> 'm trace \<times> 'pa \<Rightarrow> (jfloat \<times> jfloat) option"

type_synonym ('k, 'm, 'pa) mh_args =
  "'m trace \<times> ('k, 'm) model \<times> ('k, 'm, 'pa) proposal \<times> 'pa \<times> choicemap"

text \<open>
  Tree structures. The tree structure of a trace is made of the tree structure of its
  arguments and of the addresses of its choices; its leaves, the values of the choices, the
  return value and the score, are scalars of one type. The tree structures of the model
  arguments and of the proposal arguments, values of types that are parameters here, are
  given by a parameter \<open>T\<close>. In the chain state, the model and the proposal are generative
  functions, which are static data, and the observations are a choice map.
\<close>

record ('m, 'pa) pytree =
  args_treedef :: "'m \<Rightarrow> nat"
  proposal_args_treedef :: "'pa \<Rightarrow> nat"

definition trace_treedef :: "('m, 'pa) pytree \<Rightarrow> 'm trace \<Rightarrow> nat \<times> address set" where
  "trace_treedef T tr = (args_treedef T (get_args tr), dom (get_choices tr))"

definition mh_args_treedef ::
  "('m, 'pa) pytree \<Rightarrow> ('k, 'm, 'pa) mh_args
     \<Rightarrow> (nat \<times> address set) \<times> ('k, 'm) model \<times> ('k, 'm, 'pa) proposal \<times> nat \<times> address set" where
  "mh_args_treedef T mh_args =
     (case mh_args of (trace, model, proposal, proposal_args, observations) \<Rightarrow>
      (trace_treedef T trace, model, proposal, proposal_args_treedef T proposal_args,
       dom observations))"

subsection \<open>The kernel\<close>

definition metropolis_hastings_move ::
  "'k jax \<Rightarrow> ('m, 'pa) pytree \<Rightarrow> ('k, 'm, 'pa) mh_args \<Rightarrow> 'k
     \<Rightarrow> (('k, 'm, 'pa) mh_args \<times> 'm trace) option" where
  "metropolis_hastings_move J T mh_args key =
     (case mh_args of (trace, model, proposal, proposal_args, observations) \<Rightarrow>
      let model_args = get_args trace;
          argdiffs = no_change model_args;
          proposal_args_forward = (trace, proposal_args)
      in do {
        (key1, subkey1) \<leftarrow> unpack2 (jax_random_split J key 2);
        (fwd_choices, fwd_weight, r1) \<leftarrow> propose proposal key1 proposal_args_forward;
        (new_trace, weight, r2, discard) \<leftarrow> update model subkey1 trace fwd_choices argdiffs;
        let proposal_args_backward = (new_trace, proposal_args);
        (bwd_weight, r3) \<leftarrow> assess proposal discard proposal_args_backward;
        let \<alpha> = jnp_add J (jnp_sub J weight fwd_weight) bwd_weight;
        (key2, subkey2) \<leftarrow> unpack2 (jax_random_split J key1 2);
        ret_fun \<leftarrow>
          lax_cond (trace_treedef T) (flt (jnp_log J (uniform J subkey2)) \<alpha>) new_trace trace;
        Some ((ret_fun, model, proposal, proposal_args, observations), ret_fun)
      })"

subsection \<open>The proposal of the notebook\<close>

text \<open>
  \<^verbatim>\<open>
  @gen
  def prop(tr, *_):
      orig_a = tr.get_choices()["a"]
      a = normal(orig_a, 1.0) @ "a"
      return a
  \<close>
  The decorator turns the function into a generative function, called \<open>prop_gen\<close> here
  (\<open>prop\<close> is a name of the logic). Its \<^verbatim>\<open>propose\<close> runs the
  body, draws the value at the address \<^verbatim>\<open>"a"\<close> and returns the choices made, their log
  density and the return value; its \<^verbatim>\<open>assess\<close> runs the body on the given choices and
  returns their log density and the return value. Reading an address that a choice map does
  not hold raises. The sampler and the log density of \<^verbatim>\<open>normal\<close> are parameters.
\<close>

record 'k genjax =
  normal_sample :: "'k \<Rightarrow> jfloat \<Rightarrow> jfloat \<Rightarrow> jfloat"
  normal_logpdf :: "jfloat \<Rightarrow> jfloat \<Rightarrow> jfloat \<Rightarrow> jfloat"

definition prop_propose ::
  "'k genjax \<Rightarrow> 'k \<Rightarrow> 'm trace \<times> 'pa \<Rightarrow> (choicemap \<times> jfloat \<times> jfloat) option" where
  "prop_propose G key args =
     (case args of (tr, rest) \<Rightarrow>
      do {
        orig_a \<leftarrow> get_choices tr ''a'';
        let a = normal_sample G key orig_a (Fin 1);
        Some ([''a'' \<mapsto> a], normal_logpdf G a orig_a (Fin 1), a)
      })"

definition prop_assess ::
  "'k genjax \<Rightarrow> choicemap \<Rightarrow> 'm trace \<times> 'pa \<Rightarrow> (jfloat \<times> jfloat) option" where
  "prop_assess G chm args =
     (case args of (tr, rest) \<Rightarrow>
      do {
        orig_a \<leftarrow> get_choices tr ''a'';
        a \<leftarrow> chm ''a'';
        Some (normal_logpdf G a orig_a (Fin 1), a)
      })"

definition prop_gen :: "'k genjax \<Rightarrow> ('k, 'm, 'pa) proposal" where
  "prop_gen G = \<lparr>propose = prop_propose G, assess = prop_assess G\<rparr>"

subsection \<open>The driver and its entry point\<close>

text \<open>
  The scan of the driver is traced on the initial chain state and an abstract key, for which
  the seed of the driver stands.
\<close>

definition mh ::
  "'k jax \<Rightarrow> ('m, 'pa) pytree \<Rightarrow> 'm trace \<Rightarrow> ('k, 'm) model \<Rightarrow> ('k, 'm, 'pa) proposal \<Rightarrow> 'pa
     \<Rightarrow> choicemap \<Rightarrow> 'k \<Rightarrow> nat \<Rightarrow> ('m trace \<times> 'm trace list) option" where
  "mh J T trace model proposal proposal_args observations key num_updates =
     (let mh_keys = jax_random_split J key num_updates
      in do {
        (last_carry, mh_chain) \<leftarrow>
          scan (mh_args_treedef T) key (metropolis_hastings_move J T)
            (trace, model, proposal, proposal_args, observations) mh_keys;
        Some (fst last_carry, mh_chain)
      })"

definition custom_mh ::
  "'k jax \<Rightarrow> ('m, unit) pytree \<Rightarrow> 'k genjax \<Rightarrow> 'm trace \<Rightarrow> ('k, 'm) model \<Rightarrow> choicemap
     \<Rightarrow> 'k \<Rightarrow> nat \<Rightarrow> ('m trace \<times> 'm trace list) option" where
  "custom_mh J T G trace model observations key num_updates =
     mh J T trace model (prop_gen G) () observations key num_updates"

definition run_inference ::
  "'k jax \<Rightarrow> ('m, unit) pytree \<Rightarrow> 'k genjax \<Rightarrow> ('k, 'm) model \<Rightarrow> 'm \<Rightarrow> choicemap \<Rightarrow> 'k
     \<Rightarrow> nat \<Rightarrow> ('m trace \<times> 'm trace list) option" where
  "run_inference J T G model model_args obs key num_samples =
     do {
       (key', subkey1, subkey2) \<leftarrow> unpack3 (jax_random_split J key 3);
       (tr, w) \<leftarrow> importance model subkey1 obs model_args;
       (rejuvenated_trace, mh_chain) \<leftarrow> custom_mh J T G tr model obs subkey2 num_samples;
       Some (rejuvenated_trace, mh_chain)
     }"

section \<open>Notions used to state the properties\<close>

text \<open>
  The chain state after \<open>i\<close> applications of a step function \<open>f\<close> to the inputs \<open>xs\<close>,
  starting from \<open>c\<close>: the state before the first application is \<open>c\<close>, and the state after
  application \<open>i + 1\<close> is the one that \<open>f\<close> returns on the state after application \<open>i\<close>
  and on the input \<open>xs ! i\<close>. It is \<open>None\<close> as soon as an application raises.
\<close>

fun carry_after ::
  "('c \<Rightarrow> 'x \<Rightarrow> ('c \<times> 'y) option) \<Rightarrow> 'c \<Rightarrow> 'x list \<Rightarrow> nat \<Rightarrow> 'c option" where
  "carry_after f c xs 0 = Some c"
| "carry_after f c xs (Suc i) =
     (case carry_after f c xs i of
        None \<Rightarrow> None
      | Some c' \<Rightarrow> map_option fst (f c' (xs ! i)))"



text \<open>
  A step that also raises when it changes the tree structure of the carry, as the steps of
  a scan do.
\<close>

definition checked ::
  "('c \<Rightarrow> 's) \<Rightarrow> ('c \<Rightarrow> 'x \<Rightarrow> ('c \<times> 'y) option) \<Rightarrow> 'c \<Rightarrow> 'x \<Rightarrow> ('c \<times> 'y) option" where
  "checked treedef f c x =
     (case f c x of
        None \<Rightarrow> None
      | Some (c', y) \<Rightarrow> if treedef c' = treedef c then Some (c', y) else None)"

definition chain_state ::
  "'k jax \<Rightarrow> ('m, 'pa) pytree \<Rightarrow> ('k, 'm, 'pa) mh_args \<Rightarrow> 'k list \<Rightarrow> nat
     \<Rightarrow> ('k, 'm, 'pa) mh_args option" where
  "chain_state J T s ks i = carry_after (metropolis_hastings_move J T) s ks i"

text \<open>
  One step of the kernel with the three seeds it hands out given one by one: the seed of the
  forward proposal, the seed of the model update and the seed of the accept/reject draw.
\<close>

definition mh_step_with_seeds ::
  "'k jax \<Rightarrow> ('m, 'pa) pytree \<Rightarrow> ('k, 'm, 'pa) mh_args \<Rightarrow> 'k \<Rightarrow> 'k \<Rightarrow> 'k
     \<Rightarrow> (('k, 'm, 'pa) mh_args \<times> 'm trace) option" where
  "mh_step_with_seeds J T mh_args seed_propose seed_update seed_accept =
     (case mh_args of (trace, model, proposal, proposal_args, observations) \<Rightarrow>
      do {
        (fwd_choices, fwd_weight, r1) \<leftarrow> propose proposal seed_propose (trace, proposal_args);
        (new_trace, weight, r2, discard) \<leftarrow>
          update model seed_update trace fwd_choices (no_change (get_args trace));
        (bwd_weight, r3) \<leftarrow> assess proposal discard (new_trace, proposal_args);
        let \<alpha> = fadd (fround J) (fsub (fround J) weight fwd_weight) bwd_weight;
        ret \<leftarrow>
          lax_cond (trace_treedef T) (flt (flog (log_rounded J) (uniform J seed_accept)) \<alpha>)
            new_trace trace;
        Some ((ret, model, proposal, proposal_args, observations), ret)
      })"

text \<open>
  The keys that splitting can reach from a root key, and two platforms that draw the same
  numbers and derive the same keys at each of them.
\<close>

inductive_set derived_keys :: "'k jax \<Rightarrow> 'k \<Rightarrow> 'k set" for J :: "'k jax" and key :: 'k where
  root: "key \<in> derived_keys J key"
| child: "k \<in> derived_keys J key \<Longrightarrow> i < n \<Longrightarrow> threefry_split J k n i \<in> derived_keys J key"

definition same_randomness :: "'k jax \<Rightarrow> 'k jax \<Rightarrow> 'k \<Rightarrow> bool" where
  "same_randomness J J' key \<longleftrightarrow>
     fround J' = fround J \<and> log_rounded J' = log_rounded J \<and>
     (\<forall>k \<in> derived_keys J key.
        uniform J' k = uniform J k \<and>
        (\<forall>n i. i < n \<longrightarrow> threefry_split J' k n i = threefry_split J k n i))"

section \<open>Deterministic stubs\<close>

text \<open>
  A platform, a model and proposals with fixed answers, on which the properties are
  evaluated: keys are natural numbers, every uniform draw is \<open>0.4\<close>, rounding is exact, the
  model's update overwrites the edited addresses and returns the weight \<open>1\<close>, and the
  proposal edits the address \<^verbatim>\<open>"a"\<close> with forward weight \<open>0.5\<close> and backward weight \<open>0.2\<close>.
\<close>

definition stub_jax :: "nat jax" where
  "stub_jax = \<lparr>threefry_split = (\<lambda>k n i. 3 * k + i + 1), uniform = (\<lambda>k. Fin (2 / 5)),
                fround = Fin, log_rounded = ln\<rparr>"

text \<open>Model arguments are tuples of scalars, and there are no proposal arguments.\<close>

definition stub_pytree :: "(jfloat list, unit) pytree" where
  "stub_pytree = \<lparr>args_treedef = length, proposal_args_treedef = (\<lambda>u. 0)\<rparr>"

definition stub_trace :: "jfloat list trace" where
  "stub_trace = \<lparr>get_args = [Fin 5],
                  get_choices = [''a'' \<mapsto> Fin 0, ''b'' \<mapsto> Fin 0, ''y'' \<mapsto> Fin 4],
                  get_retval = Fin 4, get_score = Fin 0\<rparr>"

definition stub_obs :: choicemap where
  "stub_obs = [''y'' \<mapsto> Fin 4]"

definition stub_update ::
  "nat \<Rightarrow> jfloat list trace \<Rightarrow> choicemap \<Rightarrow> jfloat list diff
     \<Rightarrow> (jfloat list trace \<times> jfloat \<times> jfloat diff \<times> choicemap) option" where
  "stub_update key tr chm argdiffs =
     Some (tr\<lparr>get_choices := get_choices tr ++ chm\<rparr>, Fin 1, Diff (get_retval tr) NoChange,
           get_choices tr |` dom chm)"

definition stub_importance ::
  "nat \<Rightarrow> choicemap \<Rightarrow> jfloat list \<Rightarrow> (jfloat list trace \<times> jfloat) option" where
  "stub_importance key obs args =
     Some (\<lparr>get_args = args, get_choices = [''a'' \<mapsto> Fin 0, ''b'' \<mapsto> Fin 0] ++ obs,
            get_retval = Fin 4, get_score = Fin 0\<rparr>, Fin 0)"

definition stub_model :: "(nat, jfloat list) model" where
  "stub_model = \<lparr>importance = stub_importance, update = stub_update\<rparr>"

definition stub_proposal :: "(nat, jfloat list, unit) proposal" where
  "stub_proposal =
     \<lparr>propose = (\<lambda>key args. Some ([''a'' \<mapsto> Fin 1], Fin (1 / 2), Fin 1)),
      assess = (\<lambda>chm args. Some (Fin (1 / 5), Fin 1))\<rparr>"

definition stub_genjax :: "nat genjax" where
  "stub_genjax = \<lparr>normal_sample = (\<lambda>key mu sigma. fadd Fin mu sigma),
                   normal_logpdf = (\<lambda>v mu sigma. Fin (- 1))\<rparr>"

text \<open>The trace that a step of the stubs accepts.\<close>

definition stub_accept :: "jfloat list trace \<Rightarrow> jfloat list trace" where
  "stub_accept tr = tr\<lparr>get_choices := (get_choices tr)(''a'' \<mapsto> Fin 1)\<rparr>"

definition stub_accepted :: "jfloat list trace" where
  "stub_accepted = stub_accept stub_trace"

text \<open>A proposal whose backward weight is plus infinity.\<close>

definition inf_proposal :: "(nat, jfloat list, unit) proposal" where
  "inf_proposal =
     \<lparr>propose = (\<lambda>key args. Some ([''a'' \<mapsto> Fin 1], Fin (1 / 2), Fin 1)),
      assess = (\<lambda>chm args. Some (PosInf, Fin 1))\<rparr>"

text \<open>
  Observations that fix the address \<^verbatim>\<open>"a"\<close>, which the proposal of the notebook edits, and a
  proposal that edits the observed address \<^verbatim>\<open>"y"\<close>.
\<close>

definition stub_obs_a :: choicemap where
  "stub_obs_a = [''a'' \<mapsto> Fin 0]"

definition y_proposal :: "(nat, jfloat list, unit) proposal" where
  "y_proposal =
     \<lparr>propose = (\<lambda>key args. Some ([''y'' \<mapsto> Fin 5], Fin 0, Fin 5)),
      assess = (\<lambda>chm args. Some (Fin 0, Fin 5))\<rparr>"

text \<open>A platform that draws differently at the key \<open>0\<close>, which no split of the key \<open>1\<close> reaches.\<close>

definition stub_jax_alt :: "nat jax" where
  "stub_jax_alt = stub_jax\<lparr>uniform := (\<lambda>k. if k = 0 then Fin 0 else Fin (2 / 5))\<rparr>"

text \<open>
  A model whose update adds the address \<^verbatim>\<open>"z"\<close> to the trace, so that the candidate trace
  has another tree structure than the current one.
\<close>

definition z_update ::
  "nat \<Rightarrow> jfloat list trace \<Rightarrow> choicemap \<Rightarrow> jfloat list diff
     \<Rightarrow> (jfloat list trace \<times> jfloat \<times> jfloat diff \<times> choicemap) option" where
  "z_update key tr chm argdiffs =
     Some (tr\<lparr>get_choices := (get_choices tr ++ chm)(''z'' \<mapsto> Fin 0)\<rparr>, Fin 1,
           Diff (get_retval tr) NoChange, get_choices tr |` dom chm)"

definition z_model :: "(nat, jfloat list) model" where
  "z_model = \<lparr>importance = stub_importance, update = z_update\<rparr>"





text \<open>
  Collaborators that show the key they are given: the proposal proposes its key as the
  value at \<^verbatim>\<open>"a"\<close>, the update of the model writes its key at \<^verbatim>\<open>"b"\<close> and returns the weight
  \<open>-1\<close>, and the platform draws \<open>0.1\<close> at the key \<open>5\<close> and \<open>0.9\<close> at every other key, so
  that a step accepts if and only if its accept/reject draw is made at the key \<open>5\<close>.
\<close>

definition spy_jax :: "nat jax" where
  "spy_jax = \<lparr>threefry_split = (\<lambda>k n i. 3 * k + i + 1),
               uniform = (\<lambda>k. if k = 5 then Fin (1 / 10) else Fin (9 / 10)),
               fround = Fin, log_rounded = ln\<rparr>"

definition spy_proposal :: "(nat, jfloat list, unit) proposal" where
  "spy_proposal =
     \<lparr>propose = (\<lambda>key args. Some ([''a'' \<mapsto> Fin (real key)], Fin 0, Fin (real key))),
      assess = (\<lambda>chm args. Some (Fin 0, Fin 0))\<rparr>"

definition spy_update ::
  "nat \<Rightarrow> jfloat list trace \<Rightarrow> choicemap \<Rightarrow> jfloat list diff
     \<Rightarrow> (jfloat list trace \<times> jfloat \<times> jfloat diff \<times> choicemap) option" where
  "spy_update key tr chm argdiffs =
     Some (tr\<lparr>get_choices := (get_choices tr ++ chm)(''b'' \<mapsto> Fin (real key))\<rparr>, Fin (- 1),
           Diff (get_retval tr) NoChange, get_choices tr |` dom chm)"

definition spy_model :: "(nat, jfloat list) model" where
  "spy_model = \<lparr>importance = stub_importance, update = spy_update\<rparr>"

text \<open>A model whose importance sampler returns the trace of \<open>stub_model\<close> with another weight.\<close>

definition stub_model_w :: "(nat, jfloat list) model" where
  "stub_model_w = stub_model\<lparr>importance :=
      (\<lambda>key obs args. map_option (\<lambda>(t, w). (t, Fin 7)) (stub_importance key obs args))\<rparr>"

section \<open>Basic facts\<close>

subsection \<open>Rounding to binary32\<close>









subsection \<open>Splitting and scanning\<close>

lemma split2:
  "jax_random_split J key 2 = [threefry_split J key 2 0, threefry_split J key 2 1]"
  by (simp add: jax_random_split_def upt_rec)

lemma upt3: "[0..<3] = [0, 1, 2::nat]"
  by code_simp

lemma split3:
  "jax_random_split J key 3 =
     [threefry_split J key 3 0, threefry_split J key 3 1, threefry_split J key 3 2]"
  by (simp only: jax_random_split_def upt3 list.map)

lemma length_split: "length (jax_random_split J key n) = n"
  by (simp add: jax_random_split_def)

lemma scan_loop_Cons_checked:
  "scan_loop td f c acc (x # xs) =
     (case checked td f c x of
        None \<Rightarrow> None
      | Some (c', y) \<Rightarrow> scan_loop td f c' (acc @ [y]) xs)"
  by (simp add: checked_def scan_loop.simps(2) split: option.splits)

declare scan_loop.simps(2) [simp del]

lemma scan_loop_acc:
  "scan_loop td f c acc xs = map_option (\<lambda>(c', ys). (c', acc @ ys)) (scan_loop td f c [] xs)"
proof (induction xs arbitrary: c acc)
  case Nil
  show ?case by simp
next
  case (Cons x xs)
  show ?case
  proof (cases "checked td f c x")
    case None
    then show ?thesis by (simp only: scan_loop_Cons_checked) simp
  next
    case (Some p)
    obtain c' y where p: "p = (c', y)" by (cases p)
    have "scan_loop td f c acc (x # xs) = scan_loop td f c' (acc @ [y]) xs"
      using Some p by (simp only: scan_loop_Cons_checked) simp
    also have "\<dots> = map_option (\<lambda>(c'', ys). (c'', (acc @ [y]) @ ys)) (scan_loop td f c' [] xs)"
      by (rule Cons.IH)
    finally have l: "scan_loop td f c acc (x # xs) =
        map_option (\<lambda>(c'', ys). (c'', acc @ y # ys)) (scan_loop td f c' [] xs)"
      by simp
    have "scan_loop td f c [] (x # xs) = scan_loop td f c' ([] @ [y]) xs"
      using Some p by (simp only: scan_loop_Cons_checked) simp
    also have "\<dots> = map_option (\<lambda>(c'', ys). (c'', ([] @ [y]) @ ys)) (scan_loop td f c' [] xs)"
      by (rule Cons.IH)
    finally have r: "scan_loop td f c [] (x # xs) =
        map_option (\<lambda>(c'', ys). (c'', y # ys)) (scan_loop td f c' [] xs)"
      by simp
    show ?thesis unfolding l r
      by (cases "scan_loop td f c' [] xs") auto
  qed
qed

lemma scan_loop_Nil: "scan_loop td f c [] [] = Some (c, [])"
  by simp

lemma scan_loop_Cons:
  "scan_loop td f c [] (x # xs) =
     (case checked td f c x of
        None \<Rightarrow> None
      | Some (c', y) \<Rightarrow> map_option (\<lambda>(c'', ys). (c'', y # ys)) (scan_loop td f c' [] xs))"
proof (cases "checked td f c x")
  case None
  then show ?thesis by (simp only: scan_loop_Cons_checked) simp
next
  case (Some p)
  obtain c' y where p: "p = (c', y)" by (cases p)
  show ?thesis using Some p scan_loop_acc [of td f c' "[y]" xs]
    by (simp only: scan_loop_Cons_checked) simp
qed

lemma scan_checked:
  "scan td x0 f init xs =
     (case checked td f init x0 of None \<Rightarrow> None | Some p \<Rightarrow> scan_loop td f init [] xs)"
  by (simp add: scan_def checked_def split: option.splits)

lemma scan_loop_cong_on:
  assumes "\<And>c x. x \<in> set xs \<Longrightarrow> f' c x = f c x"
  shows "scan_loop td f' c [] xs = scan_loop td f c [] xs"
  using assms
proof (induction xs arbitrary: c)
  case Nil
  show ?case by simp
next
  case (Cons x xs)
  have "\<And>c'. scan_loop td f' c' [] xs = scan_loop td f c' [] xs"
    using Cons.prems by (intro Cons.IH) simp
  moreover have "checked td f' c x = checked td f c x"
    using Cons.prems by (simp add: checked_def)
  ultimately show ?case by (simp add: scan_loop_Cons cong: option.case_cong)
qed

lemma carry_after_Cons:
  "carry_after f c (x # xs) (Suc i) =
     (case f c x of None \<Rightarrow> None | Some (c', y) \<Rightarrow> carry_after f c' xs i)"
proof (induction i)
  case 0
  show ?case by (cases "f c x") auto
next
  case (Suc i)
  have "carry_after f c (x # xs) (Suc (Suc i)) =
          (case carry_after f c (x # xs) (Suc i) of
             None \<Rightarrow> None
           | Some c' \<Rightarrow> map_option fst (f c' (xs ! i)))"
    by (simp del: carry_after.simps add: carry_after.simps(2) [of f c "x # xs" "Suc i"]
          cong: option.case_cong)
  also have "\<dots> = (case f c x of None \<Rightarrow> None | Some (c', y) \<Rightarrow> carry_after f c' xs (Suc i))"
    unfolding Suc.IH by (cases "f c x") auto
  finally show ?case .
qed

text \<open>
  If every step returns and keeps the tree structure of the carry, the loop returns the
  last carry and one output per input, the \<open>i\<close>-th output being the one of the step on the
  carry after \<open>i\<close> steps.
\<close>

lemma scan_loop_records:
  assumes "carry_after (checked td f) c xs (length xs) = Some cN"
  shows "\<exists>ys. scan_loop td f c [] xs = Some (cN, ys) \<and> length ys = length xs \<and>
           (\<forall>i<length xs. \<exists>ci. carry_after (checked td f) c xs i = Some ci \<and>
                map_option snd (checked td f ci (xs ! i)) = Some (ys ! i))"
  using assms
proof (induction xs arbitrary: c)
  case Nil
  then show ?case by simp
next
  case (Cons x xs)
  let ?g = "checked td f"
  from Cons.prems obtain c' y where fx: "?g c x = Some (c', y)"
    and rest: "carry_after ?g c' xs (length xs) = Some cN"
    by (auto simp: carry_after_Cons simp del: carry_after.simps split: option.splits)
  from Cons.IH [OF rest] obtain ys where
    sc: "scan_loop td f c' [] xs = Some (cN, ys)" and len: "length ys = length xs"
    and recs: "\<forall>i<length xs. \<exists>ci. carry_after ?g c' xs i = Some ci \<and>
                map_option snd (?g ci (xs ! i)) = Some (ys ! i)"
    by blast
  have "scan_loop td f c [] (x # xs) = Some (cN, y # ys)"
    using fx sc by (simp add: scan_loop_Cons)
  moreover have "length (y # ys) = length (x # xs)"
    using len by simp
  moreover have "\<forall>i<length (x # xs). \<exists>ci. carry_after ?g c (x # xs) i = Some ci \<and>
                map_option snd (?g ci ((x # xs) ! i)) = Some ((y # ys) ! i)"
  proof (intro allI impI)
    fix i assume i: "i < length (x # xs)"
    show "\<exists>ci. carry_after ?g c (x # xs) i = Some ci \<and>
                map_option snd (?g ci ((x # xs) ! i)) = Some ((y # ys) ! i)"
    proof (cases i)
      case 0
      then show ?thesis using fx by simp
    next
      case (Suc j)
      with i have "j < length xs" by simp
      with recs obtain cj where "carry_after ?g c' xs j = Some cj"
        and "map_option snd (?g cj (xs ! j)) = Some (ys ! j)" by blast
      then show ?thesis using Suc fx by (simp add: carry_after_Cons del: carry_after.simps)
    qed
  qed
  ultimately show ?case by blast
qed

lemma scan_loop_Some_carry:
  "scan_loop td f c [] xs = Some (cN, ys) \<Longrightarrow>
   carry_after (checked td f) c xs (length xs) = Some cN"
proof (induction xs arbitrary: c ys)
  case Nil
  then show ?case by simp
next
  case (Cons x xs)
  then show ?case
    by (auto simp: scan_loop_Cons carry_after_Cons simp del: carry_after.simps
             split: option.splits)
qed


subsection \<open>The kernel, step by step\<close>

lemma mh_move_seeds:
  "metropolis_hastings_move J T s key =
     mh_step_with_seeds J T s (threefry_split J key 2 0) (threefry_split J key 2 1)
       (threefry_split J (threefry_split J key 2 0) 2 1)"
  by (cases s) (simp add: metropolis_hastings_move_def mh_step_with_seeds_def split2 Let_def
        jnp_add_def jnp_sub_def jnp_log_def)

lemma mh_move_cond:
  assumes "propose proposal (threefry_split J key 2 0) (trace, proposal_args)
             = Some (fwd_choices, fw, r1)"
    and "update model (threefry_split J key 2 1) trace fwd_choices (no_change (get_args trace))
           = Some (new_trace, w, r2, discard)"
    and "assess proposal discard (new_trace, proposal_args) = Some (bw, r3)"
    and "uniform J (threefry_split J (threefry_split J key 2 0) 2 1) = u"
  shows "metropolis_hastings_move J T (trace, model, proposal, proposal_args, observations) key =
           map_option (\<lambda>r. ((r, model, proposal, proposal_args, observations), r))
             (lax_cond (trace_treedef T) (flt (jnp_log J u) (jnp_add J (jnp_sub J w fw) bw))
                new_trace trace)"
  using assms
  by (cases "lax_cond (trace_treedef T) (flt (jnp_log J u) (jnp_add J (jnp_sub J w fw) bw))
                new_trace trace")
     (simp_all add: metropolis_hastings_move_def split2 Let_def)

lemma mh_move_eval:
  assumes "propose proposal (threefry_split J key 2 0) (trace, proposal_args)
             = Some (fwd_choices, fw, r1)"
    and "update model (threefry_split J key 2 1) trace fwd_choices (no_change (get_args trace))
           = Some (new_trace, w, r2, discard)"
    and "assess proposal discard (new_trace, proposal_args) = Some (bw, r3)"
    and "uniform J (threefry_split J (threefry_split J key 2 0) 2 1) = u"
    and "trace_treedef T new_trace = trace_treedef T trace"
  shows "metropolis_hastings_move J T (trace, model, proposal, proposal_args, observations) key =
           (if flt (jnp_log J u) (jnp_add J (jnp_sub J w fw) bw)
            then Some ((new_trace, model, proposal, proposal_args, observations), new_trace)
            else Some ((trace, model, proposal, proposal_args, observations), trace))"
  using assms(5) by (simp add: mh_move_cond [OF assms(1-4)] lax_cond_def)

lemma mh_move_raises:
  assumes "propose proposal (threefry_split J key 2 0) (trace, proposal_args)
             = Some (fwd_choices, fw, r1)"
    and "update model (threefry_split J key 2 1) trace fwd_choices (no_change (get_args trace))
           = Some (new_trace, w, r2, discard)"
    and "assess proposal discard (new_trace, proposal_args) = Some (bw, r3)"
    and "trace_treedef T new_trace \<noteq> trace_treedef T trace"
  shows "metropolis_hastings_move J T (trace, model, proposal, proposal_args, observations) key
           = None"
  using assms(4) by (simp add: mh_move_cond [OF assms(1-3) refl] lax_cond_def)

lemma mh_move_state:
  assumes "metropolis_hastings_move J T (trace, model, proposal, proposal_args, observations) key
             = Some (s', record)"
  shows "s' = (record, model, proposal, proposal_args, observations)"
  using assms
  by (auto simp: metropolis_hastings_move_def split2 Let_def split: Option.bind_splits)

lemma mh_move_record_treedef:
  assumes "metropolis_hastings_move J T (trace, model, proposal, proposal_args, observations) key
             = Some (s', record)"
  shows "trace_treedef T record = trace_treedef T trace"
  using assms
  by (auto simp: metropolis_hastings_move_def split2 Let_def lax_cond_def
           split: Option.bind_splits if_splits)

lemma mh_move_treedef:
  assumes "metropolis_hastings_move J T s key = Some (s', record)"
  shows "mh_args_treedef T s' = mh_args_treedef T s"
proof -
  obtain t m p pa ob where s: "s = (t, m, p, pa, ob)" by (cases s) auto
  from assms have "s' = (record, m, p, pa, ob)" and "trace_treedef T record = trace_treedef T t"
    unfolding s by (rule mh_move_state, rule mh_move_record_treedef)
  then show ?thesis by (simp add: s mh_args_treedef_def)
qed

lemma mh_move_checked:
  "checked (mh_args_treedef T) (metropolis_hastings_move J T) s key =
     metropolis_hastings_move J T s key"
proof (cases "metropolis_hastings_move J T s key")
  case None
  then show ?thesis by (simp add: checked_def)
next
  case (Some q)
  obtain s' r where q: "q = (s', r)" by (cases q)
  from mh_move_treedef [OF Some [unfolded q]] show ?thesis
    by (simp add: checked_def Some q)
qed

lemma mh_checked_fun:
  "checked (mh_args_treedef T) (metropolis_hastings_move J T) = metropolis_hastings_move J T"
  by (intro ext) (rule mh_move_checked)

lemma mh_loop_Cons:
  "scan_loop (mh_args_treedef T) (metropolis_hastings_move J T) s [] (k # ks) =
     (case metropolis_hastings_move J T s k of
        None \<Rightarrow> None
      | Some (s', r) \<Rightarrow>
          map_option (\<lambda>(s'', rs). (s'', r # rs))
            (scan_loop (mh_args_treedef T) (metropolis_hastings_move J T) s' [] ks))"
  by (simp add: scan_loop_Cons mh_move_checked)

lemma mh_scan:
  "mh J T t m p pa ob k n =
     (case metropolis_hastings_move J T (t, m, p, pa, ob) k of
        None \<Rightarrow> None
      | Some q \<Rightarrow>
          map_option (\<lambda>(s, ys). (fst s, ys))
            (scan_loop (mh_args_treedef T) (metropolis_hastings_move J T) (t, m, p, pa, ob) []
               (jax_random_split J k n)))"
proof (cases "metropolis_hastings_move J T (t, m, p, pa, ob) k")
  case None
  then show ?thesis by (simp add: mh_def scan_checked mh_move_checked)
next
  case (Some q)
  then show ?thesis
    by (cases "scan_loop (mh_args_treedef T) (metropolis_hastings_move J T) (t, m, p, pa, ob) []
               (jax_random_split J k n)")
       (auto simp: mh_def scan_checked mh_move_checked)
qed

lemma run_inference_unfold:
  "run_inference J T G model model_args obs key num_samples =
     (case importance model (threefry_split J key 3 1) obs model_args of
        None \<Rightarrow> None
      | Some (tr, w) \<Rightarrow>
          mh J T tr model (prop_gen G) () obs (threefry_split J key 3 2) num_samples)"
  by (auto simp: run_inference_def custom_mh_def split3 split: option.splits Option.bind_split)

text \<open>
  With no step to run, the driver still applies the kernel once, when the scan is traced:
  it returns the initial trace and no record if this application returns, and raises if
  it raises.
\<close>

lemma mh_zero:
  "mh J T t m p pa ob k 0 =
     (case metropolis_hastings_move J T (t, m, p, pa, ob) k of
        None \<Rightarrow> None
      | Some q \<Rightarrow> Some (t, []))"
  by (simp add: mh_scan jax_random_split_def split: option.splits)

subsection \<open>The stubs, evaluated\<close>

lemma ln_stub_0: "ln (2 / 5) < (0 :: real)"
  by simp

lemma ln_stub_1: "ln (2 / 5) < (1 :: real)"
proof -
  note ln_stub_0
  also have "(0::real) < 1" by simp
  finally show ?thesis .
qed

lemma ln_stub_7: "ln (2 / 5) < (7 / 10 :: real)"
proof -
  note ln_stub_0
  also have "(0::real) < 7 / 10" by simp
  finally show ?thesis .
qed

lemma stub_alpha:
  "jnp_add stub_jax (jnp_sub stub_jax (Fin 1) (Fin (1 / 2))) (Fin (1 / 5)) = Fin (7 / 10)"
  by (simp add: jnp_add_def jnp_sub_def fsub_def stub_jax_def)

lemma stub_accepts: "flt (jnp_log stub_jax (Fin (2 / 5))) (Fin (7 / 10))"
  using ln_stub_7 by (simp add: jnp_log_def stub_jax_def)

lemma stub_uniform: "uniform stub_jax k = Fin (2 / 5)"
  by (simp add: stub_jax_def)

lemma stub_propose:
  "propose stub_proposal k (tr, ()) = Some ([''a'' \<mapsto> Fin 1], Fin (1 / 2), Fin 1)"
  by (simp add: stub_proposal_def)

lemma stub_assess: "assess stub_proposal c args = Some (Fin (1 / 5), Fin 1)"
  by (simp add: stub_proposal_def)

lemma stub_update_a:
  "update stub_model k tr [''a'' \<mapsto> Fin 1] d
     = Some (stub_accept tr, Fin 1, Diff (get_retval tr) NoChange, get_choices tr |` {''a''})"
  by (simp add: stub_model_def stub_update_def stub_accept_def)

lemma stub_accept_treedef:
  assumes "''a'' \<in> dom (get_choices tr)"
  shows "trace_treedef stub_pytree (stub_accept tr) = trace_treedef stub_pytree tr"
  using assms by (auto simp: trace_treedef_def stub_accept_def)

lemma stub_step:
  assumes "''a'' \<in> dom (get_choices tr)"
  shows "metropolis_hastings_move stub_jax stub_pytree (tr, stub_model, stub_proposal, (), obs) key =
     Some ((stub_accept tr, stub_model, stub_proposal, (), obs), stub_accept tr)"
  using mh_move_eval [where J = stub_jax and key = key and observations = obs,
          OF stub_propose stub_update_a stub_assess stub_uniform stub_accept_treedef [OF assms]]
    stub_accepts
  by (simp add: stub_alpha)

lemma stub_trace_a: "''a'' \<in> dom (get_choices stub_trace)"
  by (simp add: stub_trace_def)

lemma stub_accepted_a: "''a'' \<in> dom (get_choices stub_accepted)"
  by (simp add: stub_accepted_def stub_accept_def)

lemma stub_accept_accepted: "stub_accept stub_accepted = stub_accepted"
  by (simp add: stub_accept_def stub_accepted_def)

lemma stub_step_0:
  "metropolis_hastings_move stub_jax stub_pytree
       (stub_trace, stub_model, stub_proposal, (), obs) key =
     Some ((stub_accepted, stub_model, stub_proposal, (), obs), stub_accepted)"
  by (simp add: stub_step [OF stub_trace_a] stub_accepted_def)

lemma stub_step_1:
  "metropolis_hastings_move stub_jax stub_pytree
       (stub_accepted, stub_model, stub_proposal, (), obs) key =
     Some ((stub_accepted, stub_model, stub_proposal, (), obs), stub_accepted)"
  by (simp add: stub_step [OF stub_accepted_a] stub_accept_accepted)

lemma stub_retval: "get_retval stub_trace = Fin 4"
  by (simp add: stub_trace_def)

lemma stub_accepted_treedef:
  "trace_treedef stub_pytree stub_accepted = trace_treedef stub_pytree stub_trace"
  unfolding stub_accepted_def by (rule stub_accept_treedef [OF stub_trace_a])

lemma stub_update_0:
  "update stub_model k stub_trace [''a'' \<mapsto> Fin 1] d
     = Some (stub_accepted, Fin 1, Diff (Fin 4) NoChange, get_choices stub_trace |` {''a''})"
  by (simp add: stub_update_a stub_accepted_def stub_retval)

text \<open>
  A candidate trace of another tree structure: the kernel raises, at any acceptance ratio,
  and so does the driver, also with no step to run.
\<close>

lemma z_step_raises:
  "metropolis_hastings_move stub_jax stub_pytree
       (stub_trace, z_model, stub_proposal, (), obs) key = None"
proof -
  let ?t = "stub_trace\<lparr>get_choices := (get_choices stub_trace ++ [''a'' \<mapsto> Fin 1])(''z'' \<mapsto> Fin 0)\<rparr>"
  have u: "update z_model k stub_trace [''a'' \<mapsto> Fin 1] d
     = Some (?t, Fin 1, Diff (Fin 4) NoChange, get_choices stub_trace |` {''a''})" for k d
    by (simp add: z_model_def z_update_def stub_retval)
  have "''z'' \<in> dom (get_choices ?t)" by simp
  moreover have "''z'' \<notin> dom (get_choices stub_trace)" by (simp add: stub_trace_def)
  ultimately have ne: "trace_treedef stub_pytree ?t \<noteq> trace_treedef stub_pytree stub_trace"
    unfolding trace_treedef_def by (metis snd_conv)
  show ?thesis
    by (rule mh_move_raises [OF stub_propose u stub_assess ne])
qed

lemma z_driver_raises:
  "mh stub_jax stub_pytree stub_trace z_model stub_proposal () stub_obs 0 0 = None"
  by (simp add: mh_zero z_step_raises)


section \<open>The acceptance rule\<close>






section \<open>The chain of the driver\<close>

text \<open>
  If the kernel application made when the scan is traced and each of the \<open>N\<close> kernel
  applications of the chain return, the driver returns.
\<close>

lemma mh_chain_returns:
  assumes "metropolis_hastings_move J T (trace, model, proposal, proposal_args, observations) key
             = Some traced"
    and "chain_state J T (trace, model, proposal, proposal_args, observations)
             (jax_random_split J key N) N = Some sN"
  shows "\<exists>chain.
           mh J T trace model proposal proposal_args observations key N = Some (fst sN, chain) \<and>
           length chain = N \<and>
           (\<forall>i<N. \<exists>c.
              chain_state J T (trace, model, proposal, proposal_args, observations)
                (jax_random_split J key N) i = Some c \<and>
              map_option snd (metropolis_hastings_move J T c (jax_random_split J key N ! i))
                = Some (chain ! i)) \<and>
           fst sN = (if N = 0 then trace else last chain)"
proof -
  let ?ks = "jax_random_split J key N"
  let ?s0 = "(trace, model, proposal, proposal_args, observations)"
  let ?f = "metropolis_hastings_move J T"
  let ?td = "mh_args_treedef T"
  have len: "length ?ks = N" by (rule length_split)
  from assms(2) have "carry_after (checked ?td ?f) ?s0 ?ks (length ?ks) = Some sN"
    by (simp add: chain_state_def len mh_checked_fun)
  from scan_loop_records [OF this] obtain chain where
    sc: "scan_loop ?td ?f ?s0 [] ?ks = Some (sN, chain)" and l: "length chain = N"
    and recs: "\<forall>i<N. \<exists>ci. carry_after ?f ?s0 ?ks i = Some ci \<and>
                map_option snd (?f ci (?ks ! i)) = Some (chain ! i)"
    by (auto simp: len mh_checked_fun)
  have m: "mh J T trace model proposal proposal_args observations key N = Some (fst sN, chain)"
    using sc assms(1) by (simp add: mh_scan)
  have fin: "fst sN = (if N = 0 then trace else last chain)"
  proof (cases N)
    case 0
    then show ?thesis using assms(2) by (auto simp: chain_state_def)
  next
    case (Suc n)
    then have n: "n < N" by simp
    from recs n obtain cn where cn: "carry_after ?f ?s0 ?ks n = Some cn"
      and r: "map_option snd (?f cn (?ks ! n)) = Some (chain ! n)" by blast
    from assms(2) cn Suc have "map_option fst (?f cn (?ks ! n)) = Some sN"
      by (simp add: chain_state_def)
    with r have step: "?f cn (?ks ! n) = Some (sN, chain ! n)"
      by (cases "?f cn (?ks ! n)") auto
    obtain t m p pa ob where cnE: "cn = (t, m, p, pa, ob)" by (cases cn) auto
    from mh_move_state [OF step [unfolded cnE]] have "fst sN = chain ! n" by simp
    moreover have "last chain = chain ! n"
      using l Suc by (cases chain rule: rev_cases) (auto simp: nth_append)
    ultimately show ?thesis using Suc by simp
  qed
  show ?thesis using m l recs fin unfolding chain_state_def by blast
qed

text \<open>Conversely, the driver returns only if these applications return.\<close>

lemma mh_Some_chain_state:
  assumes "mh J T trace model proposal proposal_args observations key N = Some (final, chain)"
  shows "\<exists>traced sN.
           metropolis_hastings_move J T (trace, model, proposal, proposal_args, observations) key
             = Some traced \<and>
           chain_state J T (trace, model, proposal, proposal_args, observations)
             (jax_random_split J key N) N = Some sN \<and> fst sN = final"
proof -
  from assms obtain traced sN where
    tr: "metropolis_hastings_move J T (trace, model, proposal, proposal_args, observations) key
           = Some traced"
    and sc: "scan_loop (mh_args_treedef T) (metropolis_hastings_move J T)
           (trace, model, proposal, proposal_args, observations) []
           (jax_random_split J key N) = Some (sN, chain)"
    and f: "final = fst sN"
    by (auto simp: mh_scan split: option.splits)
  from scan_loop_Some_carry [OF sc] tr f show ?thesis
    by (simp add: chain_state_def length_split mh_checked_fun)
qed

text \<open>
  C2. For every number of steps \<open>N\<close>, the driver returns a final trace and a sequence of
  records exactly when the kernel application made when the scan is traced and the \<open>N\<close>
  kernel applications of the chain return. It then returns \<open>N\<close> records; record \<open>i\<close> is the
  trace produced by the kernel on the chain state that the previous step returned (the
  initial state for the first step) and on the \<open>i\<close>-th key; the final trace is the last
  record, and it is the initial trace when \<open>N = 0\<close>, where the sequence of records is empty.
\<close>

theorem driver_chain_records:
  "mh J T trace model proposal proposal_args observations key N = Some (final, chain) \<longleftrightarrow>
     metropolis_hastings_move J T (trace, model, proposal, proposal_args, observations) key
       \<noteq> None \<and>
     (\<exists>sN. chain_state J T (trace, model, proposal, proposal_args, observations)
             (jax_random_split J key N) N = Some sN \<and> fst sN = final) \<and>
     length chain = N \<and>
     (\<forall>i<N. \<exists>c.
        chain_state J T (trace, model, proposal, proposal_args, observations)
          (jax_random_split J key N) i = Some c \<and>
        map_option snd (metropolis_hastings_move J T c (jax_random_split J key N ! i))
          = Some (chain ! i)) \<and>
     final = (if N = 0 then trace else last chain)"
  (is "?L \<longleftrightarrow> ?R")
proof
  let ?s0 = "(trace, model, proposal, proposal_args, observations)"
  let ?ks = "jax_random_split J key N"
  assume l: ?L
  from mh_Some_chain_state [OF l] obtain traced sN where
    tr: "metropolis_hastings_move J T ?s0 key = Some traced"
    and cs: "chain_state J T ?s0 ?ks N = Some sN" and f: "fst sN = final"
    by blast
  from mh_chain_returns [OF tr cs] l f show ?R
    using tr cs by auto
next
  let ?s0 = "(trace, model, proposal, proposal_args, observations)"
  let ?ks = "jax_random_split J key N"
  assume r: ?R
  then obtain traced sN where
    tr: "metropolis_hastings_move J T ?s0 key = Some traced"
    and cs: "chain_state J T ?s0 ?ks N = Some sN" and f: "fst sN = final"
    by auto
  from mh_chain_returns [OF tr cs] obtain chain' where
    m: "mh J T trace model proposal proposal_args observations key N = Some (final, chain')"
    and l': "length chain' = N"
    and recs': "\<forall>i<N. \<exists>c. chain_state J T ?s0 ?ks i = Some c \<and>
              map_option snd (metropolis_hastings_move J T c (?ks ! i)) = Some (chain' ! i)"
    using f by auto
  have "chain = chain'"
  proof (rule nth_equalityI)
    show "length chain = length chain'" using r l' by simp
  next
    fix i assume "i < length chain"
    then have i: "i < N" using r by simp
    with r obtain c where "chain_state J T ?s0 ?ks i = Some c"
      and "map_option snd (metropolis_hastings_move J T c (?ks ! i)) = Some (chain ! i)"
      by blast
    moreover from recs' i obtain c' where "chain_state J T ?s0 ?ks i = Some c'"
      and "map_option snd (metropolis_hastings_move J T c' (?ks ! i)) = Some (chain' ! i)"
      by blast
    ultimately show "chain ! i = chain' ! i" by (metis option.inject)
  qed
  with m show ?L by simp
qed

text \<open>
  On the stubs, two steps give two records, each the trace its step accepted; and with a
  model whose update changes the tree structure of the trace, the driver raises, also with
  no step to run.
\<close>

theorem driver_chain_records_witness:
  "metropolis_hastings_move stub_jax stub_pytree
       (stub_trace, stub_model, stub_proposal, (), stub_obs) 0
     = Some ((stub_accepted, stub_model, stub_proposal, (), stub_obs), stub_accepted) \<and>
   chain_state stub_jax stub_pytree (stub_trace, stub_model, stub_proposal, (), stub_obs)
     (jax_random_split stub_jax 0 2) 2
     = Some (stub_accepted, stub_model, stub_proposal, (), stub_obs) \<and>
   mh stub_jax stub_pytree stub_trace stub_model stub_proposal () stub_obs 0 2
     = Some (stub_accepted, [stub_accepted, stub_accepted]) \<and>
   mh stub_jax stub_pytree stub_trace stub_model stub_proposal () stub_obs 0 0
     = Some (stub_trace, []) \<and>
   mh stub_jax stub_pytree stub_trace z_model stub_proposal () stub_obs 0 0 = None"
proof -
  let ?s0 = "(stub_trace, stub_model, stub_proposal, (), stub_obs)"
  let ?s1 = "(stub_accepted, stub_model, stub_proposal, (), stub_obs)"
  let ?ks = "jax_random_split stub_jax 0 2"
  note tr = stub_step_0 [of stub_obs 0]
  have c0: "chain_state stub_jax stub_pytree ?s0 ks 0 = Some ?s0" for ks
    by (simp add: chain_state_def)
  have c1: "chain_state stub_jax stub_pytree ?s0 ks (Suc 0) = Some ?s1" for ks
    by (simp add: chain_state_def stub_step_0)
  have c2: "chain_state stub_jax stub_pytree ?s0 ks (Suc (Suc 0)) = Some ?s1" for ks
    by (simp add: chain_state_def stub_step_0 stub_step_1)
  have h: "chain_state stub_jax stub_pytree ?s0 ?ks 2 = Some ?s1"
    using c2 by (simp add: numeral_2_eq_2)
  have recs: "\<forall>i<2. \<exists>c. chain_state stub_jax stub_pytree ?s0 ?ks i = Some c \<and>
      map_option snd (metropolis_hastings_move stub_jax stub_pytree c (?ks ! i))
        = Some ([stub_accepted, stub_accepted] ! i)"
  proof (intro allI impI)
    fix i :: nat assume "i < 2"
    then consider "i = 0" | "i = Suc 0" by linarith
    then show "\<exists>c. chain_state stub_jax stub_pytree ?s0 ?ks i = Some c \<and>
      map_option snd (metropolis_hastings_move stub_jax stub_pytree c (?ks ! i))
        = Some ([stub_accepted, stub_accepted] ! i)"
    proof cases
      case 1
      then show ?thesis by (simp add: c0 stub_step_0)
    next
      case 2
      then show ?thesis by (simp add: c1 stub_step_1)
    qed
  qed
  have two: "mh stub_jax stub_pytree stub_trace stub_model stub_proposal () stub_obs 0 2
     = Some (stub_accepted, [stub_accepted, stub_accepted])"
    unfolding driver_chain_records using tr h recs by simp
  have zero: "mh stub_jax stub_pytree stub_trace stub_model stub_proposal () stub_obs 0 0
     = Some (stub_trace, [])"
    unfolding driver_chain_records using tr by (simp add: c0)
  have z: "mh stub_jax stub_pytree stub_trace z_model stub_proposal () stub_obs 0 0 = None"
  proof (cases "mh stub_jax stub_pytree stub_trace z_model stub_proposal () stub_obs 0 0")
    case None
    then show ?thesis .
  next
    case (Some q)
    obtain final chain where "q = (final, chain)" by (cases q)
    with Some have "mh stub_jax stub_pytree stub_trace z_model stub_proposal () stub_obs 0 0
        = Some (final, chain)" by simp
    from this [unfolded driver_chain_records]
    have "metropolis_hastings_move stub_jax stub_pytree
        (stub_trace, z_model, stub_proposal, (), stub_obs) 0 \<noteq> None"
      by (rule conjunct1)
    then show ?thesis by (simp add: z_step_raises)
  qed
  from tr h two zero z show ?thesis by simp
qed

section \<open>Observed addresses\<close>

lemma mh_move_untouched:
  assumes step: "metropolis_hastings_move J T (trace, model, proposal, proposal_args, observations) key
             = Some (s', trace')"
    and pr: "propose proposal (threefry_split J key 2 0) (trace, proposal_args)
             = Some (fwd_choices, fw, r1)"
    and upd: "\<And>new_trace w r2 discard.
            update model (threefry_split J key 2 1) trace fwd_choices (no_change (get_args trace))
              = Some (new_trace, w, r2, discard) \<Longrightarrow>
            get_choices new_trace a = get_choices trace a"
  shows "get_choices trace' a = get_choices trace a"
proof -
  from step pr obtain new_trace w r2 discard where
    u: "update model (threefry_split J key 2 1) trace fwd_choices (no_change (get_args trace))
          = Some (new_trace, w, r2, discard)"
    and t': "trace' = new_trace \<or> trace' = trace"
    by (auto simp: mh_move_seeds mh_step_with_seeds_def Let_def lax_cond_def
             split: Option.bind_splits if_splits)
  from upd [OF u] t' show ?thesis by auto
qed

lemma stub_prop_propose:
  "propose (prop_gen stub_genjax) k (stub_trace, ())
     = Some ([''a'' \<mapsto> Fin 1], Fin (- 1), Fin 1)"
  by (simp add: prop_gen_def prop_propose_def stub_genjax_def stub_trace_def Let_def)

lemma stub_prop_step:
  "metropolis_hastings_move stub_jax stub_pytree
       (stub_trace, stub_model, prop_gen stub_genjax, (), obs) key
     = Some ((stub_accepted, stub_model, prop_gen stub_genjax, (), obs), stub_accepted)"
proof -
  have a: "assess (prop_gen stub_genjax) (get_choices stub_trace |` {''a''}) (stub_accepted, ())
             = Some (Fin (- 1), Fin 0)"
    by (simp add: prop_gen_def prop_assess_def stub_genjax_def stub_trace_def stub_accepted_def
          stub_accept_def)
  have acc: "flt (jnp_log stub_jax (Fin (2 / 5)))
               (jnp_add stub_jax (jnp_sub stub_jax (Fin 1) (Fin (- 1))) (Fin (- 1)))"
    using ln_stub_1 by (simp add: jnp_log_def jnp_add_def jnp_sub_def fsub_def stub_jax_def)
  show ?thesis
    using mh_move_eval [where J = stub_jax and key = key and observations = obs,
            OF stub_prop_propose stub_update_0 a stub_uniform stub_accepted_treedef] acc
    by simp
qed

lemma stub_y_step:
  "metropolis_hastings_move stub_jax stub_pytree (stub_trace, stub_model, y_proposal, (), obs) key
      = Some ((stub_trace\<lparr>get_choices := (get_choices stub_trace)(''y'' \<mapsto> Fin 5)\<rparr>,
               stub_model, y_proposal, (), obs),
              stub_trace\<lparr>get_choices := (get_choices stub_trace)(''y'' \<mapsto> Fin 5)\<rparr>)"
proof -
  let ?t = "stub_trace\<lparr>get_choices := (get_choices stub_trace)(''y'' \<mapsto> Fin 5)\<rparr>"
  have p: "propose y_proposal k (stub_trace, ()) = Some ([''y'' \<mapsto> Fin 5], Fin 0, Fin 5)" for k
    by (simp add: y_proposal_def)
  have u: "update stub_model k stub_trace [''y'' \<mapsto> Fin 5] d
     = Some (?t, Fin 1, Diff (Fin 4) NoChange, get_choices stub_trace |` {''y''})" for k d
    by (simp add: stub_model_def stub_update_def stub_trace_def)
  have a: "assess y_proposal c args = Some (Fin 0, Fin 5)" for c args
    by (simp add: y_proposal_def)
  have td: "trace_treedef stub_pytree ?t = trace_treedef stub_pytree stub_trace"
    by (auto simp: trace_treedef_def stub_trace_def)
  have acc: "flt (jnp_log stub_jax (Fin (2 / 5)))
               (jnp_add stub_jax (jnp_sub stub_jax (Fin 1) (Fin 0)) (Fin 0))"
    using ln_stub_1 by (simp add: jnp_log_def jnp_add_def jnp_sub_def fsub_def stub_jax_def)
  show ?thesis
    using mh_move_eval [where J = stub_jax and key = key and observations = obs,
            OF p u a stub_uniform td] acc
    by simp
qed

text \<open>
  C3, as stated: for every chain state, every address of the observation constraints has
  the same value in the trace before and after a kernel application. The kernel never
  reads the observations and applies whatever the proposal proposes. On the stubs, with the
  proposal of the notebook and observations that fix the address \<^verbatim>\<open>"a"\<close>, the step returns
  a trace where \<^verbatim>\<open>"a"\<close> has gone from \<open>0\<close> to \<open>1\<close>; with the observations on \<^verbatim>\<open>"y"\<close> and a
  proposal that edits \<^verbatim>\<open>"y"\<close>, it returns a trace where \<^verbatim>\<open>"y"\<close> has gone from \<open>4\<close> to \<open>5\<close>.
\<close>

theorem observed_address_altered:
  "stub_obs_a ''a'' = Some (Fin 0) \<and>
   get_choices stub_trace ''a'' = Some (Fin 0) \<and>
   metropolis_hastings_move stub_jax stub_pytree
       (stub_trace, stub_model, prop_gen stub_genjax, (), stub_obs_a) 0 \<noteq> None \<and>
   get_choices (snd (the (metropolis_hastings_move stub_jax stub_pytree
      (stub_trace, stub_model, prop_gen stub_genjax, (), stub_obs_a) 0))) ''a'' = Some (Fin 1) \<and>
   stub_obs ''y'' = Some (Fin 4) \<and>
   get_choices stub_trace ''y'' = Some (Fin 4) \<and>
   metropolis_hastings_move stub_jax stub_pytree
       (stub_trace, stub_model, y_proposal, (), stub_obs) 0 \<noteq> None \<and>
   get_choices (snd (the (metropolis_hastings_move stub_jax stub_pytree
      (stub_trace, stub_model, y_proposal, (), stub_obs) 0))) ''y'' = Some (Fin 5)"
  by (simp add: stub_prop_step stub_y_step)
     (simp add: stub_obs_def stub_obs_a_def stub_trace_def stub_accepted_def stub_accept_def)

lemma prop_propose_dom:
  assumes "propose (prop_gen G) key (tr, pa) = Some (fwd_choices, fw, r)"
  shows "dom fwd_choices = {''a''}"
  using assms
  by (auto simp: prop_gen_def prop_propose_def Let_def split: Option.bind_splits if_splits)

text \<open>
  With the proposal of the notebook, an address other than \<^verbatim>\<open>"a"\<close> keeps its value through a
  step, if the update of the model changes the edited addresses only.
\<close>

lemma prop_step_untouched:
  assumes step: "metropolis_hastings_move J T
               (trace, model, prop_gen G, proposal_args, observations) key
             = Some (s', trace')"
    and a: "a \<noteq> ''a''"
    and upd: "\<And>fwd_choices new_trace w r2 discard.
            update model (threefry_split J key 2 1) trace fwd_choices (no_change (get_args trace))
              = Some (new_trace, w, r2, discard) \<Longrightarrow>
            a \<notin> dom fwd_choices \<Longrightarrow> get_choices new_trace a = get_choices trace a"
  shows "get_choices trace' a = get_choices trace a"
proof -
  from step obtain fwd_choices fw r1 where
    pr: "propose (prop_gen G) (threefry_split J key 2 0) (trace, proposal_args)
           = Some (fwd_choices, fw, r1)"
    by (auto simp: mh_move_seeds mh_step_with_seeds_def split: Option.bind_splits)
  from prop_propose_dom [OF pr] a have na: "a \<notin> dom fwd_choices" by simp
  show ?thesis
    by (rule mh_move_untouched [OF step pr]) (rule upd [OF _ na])
qed

text \<open>
  C3, amended: if the choices of the forward proposal hold no observed address, and the
  model update leaves every address outside these choices as it was, then every address of
  the observation constraints has the same value in the trace before and after the kernel
  application.
\<close>

theorem observed_unchanged_if_untouched:
  assumes "metropolis_hastings_move J T (trace, model, proposal, proposal_args, observations) key
             = Some (s', trace')"
    and "propose proposal (threefry_split J key 2 0) (trace, proposal_args)
             = Some (fwd_choices, fw, r1)"
    and "dom fwd_choices \<inter> dom observations = {}"
    and "\<And>new_trace w r2 discard a.
            update model (threefry_split J key 2 1) trace fwd_choices (no_change (get_args trace))
              = Some (new_trace, w, r2, discard) \<Longrightarrow>
            a \<notin> dom fwd_choices \<Longrightarrow> get_choices new_trace a = get_choices trace a"
  shows "\<forall>a \<in> dom observations. get_choices trace' a = get_choices trace a"
proof
  fix a assume "a \<in> dom observations"
  with assms(3) have na: "a \<notin> dom fwd_choices" by blast
  show "get_choices trace' a = get_choices trace a"
    by (rule mh_move_untouched [OF assms(1) assms(2)]) (rule assms(4) [OF _ na])
qed

text \<open>
  On the stubs, with the proposal of the notebook and the observations on \<^verbatim>\<open>"y"\<close>: the step
  accepts a new value at \<^verbatim>\<open>"a"\<close>, and the observed \<^verbatim>\<open>"y"\<close> keeps its value.
\<close>

theorem observed_unchanged_if_untouched_witness:
  "metropolis_hastings_move stub_jax stub_pytree
       (stub_trace, stub_model, prop_gen stub_genjax, (), stub_obs) 0
     = Some ((stub_accepted, stub_model, prop_gen stub_genjax, (), stub_obs), stub_accepted) \<and>
   propose (prop_gen stub_genjax) (threefry_split stub_jax 0 2 0) (stub_trace, ())
     = Some ([''a'' \<mapsto> Fin 1], Fin (- 1), Fin 1) \<and>
   dom [''a'' \<mapsto> Fin 1] \<inter> dom stub_obs = {} \<and>
   update stub_model (threefry_split stub_jax 0 2 1) stub_trace [''a'' \<mapsto> Fin 1]
       (no_change (get_args stub_trace))
     = Some (stub_accepted, Fin 1, Diff (Fin 4) NoChange, get_choices stub_trace |` {''a''}) \<and>
   ''y'' \<in> dom stub_obs \<and>
   get_choices stub_accepted ''a'' \<noteq> get_choices stub_trace ''a'' \<and>
   get_choices stub_accepted ''y'' = get_choices stub_trace ''y''"
proof -
  note step = stub_prop_step [of stub_obs 0]
  note pr = stub_prop_propose [of "threefry_split stub_jax 0 2 0"]
  have disj: "dom [''a'' \<mapsto> Fin 1] \<inter> dom stub_obs = {}"
    by (simp add: stub_obs_def)
  have upd: "update stub_model (threefry_split stub_jax 0 2 1) stub_trace [''a'' \<mapsto> Fin 1]
        (no_change (get_args stub_trace)) = Some (new_trace, w, r2, discard) \<Longrightarrow>
      a \<notin> dom [''a'' \<mapsto> Fin 1] \<Longrightarrow> get_choices new_trace a = get_choices stub_trace a"
    for new_trace w r2 discard a
    by (auto simp: stub_model_def stub_update_def)
  note u = stub_update_0 [of "threefry_split stub_jax 0 2 1" "no_change (get_args stub_trace)"]
  have y: "''y'' \<in> dom stub_obs" by (simp add: stub_obs_def)
  have ch: "get_choices stub_accepted ''a'' \<noteq> get_choices stub_trace ''a''"
    by (simp add: stub_accepted_def stub_accept_def stub_trace_def)
  have "\<forall>a \<in> dom stub_obs. get_choices stub_accepted a = get_choices stub_trace a"
    by (rule observed_unchanged_if_untouched [OF step pr disj]) (rule upd)
  with y have "get_choices stub_accepted ''y'' = get_choices stub_trace ''y''" by blast
  with step pr disj u y ch show ?thesis by simp
qed

section \<open>Reproducibility\<close>

lemma same_randomness_split:
  assumes "same_randomness J J' key" and "k \<in> derived_keys J key"
  shows "jax_random_split J' k n = jax_random_split J k n"
  using assms by (simp add: same_randomness_def jax_random_split_def)

lemma same_randomness_move:
  assumes sr: "same_randomness J J' key" and k: "k \<in> derived_keys J key"
  shows "metropolis_hastings_move J' T s k = metropolis_hastings_move J T s k"
proof -
  let ?k1 = "threefry_split J k 2 0"
  let ?sk2 = "threefry_split J ?k1 2 1"
  have k1: "?k1 \<in> derived_keys J key" using k by (simp add: derived_keys.child)
  then have sk2: "?sk2 \<in> derived_keys J key" by (simp add: derived_keys.child)
  have t0: "threefry_split J' k 2 0 = ?k1"
    and t1: "threefry_split J' k 2 1 = threefry_split J k 2 1"
    using sr k by (simp_all add: same_randomness_def)
  have t2: "threefry_split J' ?k1 2 1 = ?sk2"
    using sr k1 by (simp add: same_randomness_def)
  have u: "uniform J' ?sk2 = uniform J ?sk2"
    using sr sk2 by (simp add: same_randomness_def)
  have r: "fround J' = fround J" "log_rounded J' = log_rounded J"
    using sr by (simp_all add: same_randomness_def)
  have "mh_step_with_seeds J' T s ?k1 (threefry_split J k 2 1) ?sk2 =
        mh_step_with_seeds J T s ?k1 (threefry_split J k 2 1) ?sk2"
    by (simp only: mh_step_with_seeds_def u r)
  then show ?thesis
    by (simp only: mh_move_seeds [of J'] mh_move_seeds [of J] t0 t1 t2)
qed

lemma split_derived:
  assumes "x \<in> set (jax_random_split J key N)"
  shows "x \<in> derived_keys J key"
  using assms by (auto simp: jax_random_split_def intro: derived_keys.child derived_keys.root)

text \<open>
  C4. The driver is a function of its arguments and of the platform, and it consults the
  random number generator at keys derived from its seed only: for a fixed seed, number of
  steps, model, proposal, proposal arguments and observations, two runs return the same
  records and the same final trace, also on two platforms that differ in what they draw or
  derive at keys that no split of the seed reaches.
\<close>

theorem driver_reproducible:
  assumes "same_randomness J J' key"
  shows "mh J' T trace model proposal proposal_args observations key N =
         mh J T trace model proposal proposal_args observations key N"
proof -
  let ?s0 = "(trace, model, proposal, proposal_args, observations)"
  have ks: "jax_random_split J' key N = jax_random_split J key N"
    by (rule same_randomness_split [OF assms derived_keys.root])
  have tr: "metropolis_hastings_move J' T ?s0 key = metropolis_hastings_move J T ?s0 key"
    by (rule same_randomness_move [OF assms derived_keys.root])
  have "scan_loop (mh_args_treedef T) (metropolis_hastings_move J' T) ?s0 []
          (jax_random_split J key N)
      = scan_loop (mh_args_treedef T) (metropolis_hastings_move J T) ?s0 []
          (jax_random_split J key N)"
    by (rule scan_loop_cong_on) (rule same_randomness_move [OF assms split_derived])
  then show ?thesis by (simp add: mh_scan ks tr cong: option.case_cong)
qed

lemma stub_derived_pos:
  assumes "k \<in> derived_keys stub_jax 1"
  shows "0 < k"
  using assms by (induction rule: derived_keys.induct) (simp_all add: stub_jax_def)

lemma stub_same_randomness: "same_randomness stub_jax stub_jax_alt 1"
  unfolding same_randomness_def
proof (intro conjI ballI)
  show "fround stub_jax_alt = fround stub_jax" by (simp add: stub_jax_alt_def)
  show "log_rounded stub_jax_alt = log_rounded stub_jax" by (simp add: stub_jax_alt_def)
next
  fix k assume "k \<in> derived_keys stub_jax 1"
  then have "0 < k" by (rule stub_derived_pos)
  then show "uniform stub_jax_alt k = uniform stub_jax k"
    by (simp add: stub_jax_alt_def stub_jax_def)
  show "\<forall>n i. i < n \<longrightarrow> threefry_split stub_jax_alt k n i = threefry_split stub_jax k n i"
    by (simp add: stub_jax_alt_def)
qed

lemma stub_mh_2:
  "mh stub_jax stub_pytree stub_trace stub_model stub_proposal () stub_obs k 2 =
     Some (stub_accepted, [stub_accepted, stub_accepted])"
  by (simp add: mh_scan split2 mh_loop_Cons stub_step_0 stub_step_1)

text \<open>
  On the stubs, from the seed \<open>1\<close>: the two platforms draw different numbers at the key
  \<open>0\<close>, and two steps of the driver return the same chain on both, the one computed.
\<close>

theorem driver_reproducible_witness:
  "same_randomness stub_jax stub_jax_alt 1 \<and>
   uniform stub_jax_alt 0 \<noteq> uniform stub_jax 0 \<and>
   mh stub_jax_alt stub_pytree stub_trace stub_model stub_proposal () stub_obs 1 2 =
     Some (stub_accepted, [stub_accepted, stub_accepted])"
proof -
  have d: "uniform stub_jax_alt 0 \<noteq> uniform stub_jax 0"
    by (simp add: stub_jax_alt_def stub_jax_def)
  with stub_same_randomness stub_mh_2 [of 1]
    driver_reproducible [OF stub_same_randomness,
      of stub_pytree stub_trace stub_model stub_proposal "()" stub_obs 2]
  show ?thesis by simp
qed


section \<open>The seeds of a step\<close>

lemma ln_tenth: "ln (1 / 10) < (- 1 :: real)"
proof -
  have "exp (1::real) \<le> 3" by (rule exp_le)
  then have "exp (1::real) < 10" by simp
  then have "ln (exp (1::real)) < ln 10" by (subst ln_less_cancel_iff) simp_all
  then show ?thesis by (simp add: ln_div)
qed

lemma ln_nine_tenths: "\<not> ln (9 / 10) < (- 1 :: real)"
proof -
  have "ln (10 / 9 :: real) \<le> 10 / 9 - 1" by (rule ln_le_minus_one) simp
  moreover have "ln (9 / 10 :: real) = - ln (10 / 9)" by (simp add: ln_div)
  ultimately show ?thesis by simp
qed

text \<open>
  C5. The claim: exactly two independent seeds are split from the seed of the step, one
  for the forward proposal and one for the accept/reject draw. The code splits the seed of
  the step into \<^verbatim>\<open>key\<close> and \<^verbatim>\<open>subkey\<close>, gives \<^verbatim>\<open>key\<close> to the proposal and \<^verbatim>\<open>subkey\<close> to the
  update of the model, and then splits the same \<^verbatim>\<open>key\<close>, which the proposal has consumed,
  to get the seed of the accept/reject draw. On collaborators that show the key they are
  given, from the seed \<open>0\<close>: the proposal is given the key \<open>1\<close>, the update of the model the
  key \<open>2\<close>, and the step accepts, which it does only if the draw is made at the key \<open>5\<close>,
  the second half of the split of the key \<open>1\<close>.
\<close>

theorem accept_seed_split_from_proposal_key:
  "threefry_split spy_jax 0 2 0 = 1 \<and>
   threefry_split spy_jax 0 2 1 = 2 \<and>
   threefry_split spy_jax 1 2 1 = 5 \<and>
   uniform spy_jax 5 = Fin (1 / 10) \<and>
   uniform spy_jax 2 = Fin (9 / 10) \<and>
   \<not> flt (jnp_log spy_jax (Fin (9 / 10))) (Fin (- 1)) \<and>
   metropolis_hastings_move spy_jax stub_pytree
       (stub_trace, spy_model, spy_proposal, (), stub_obs) 0 =
     Some ((stub_trace\<lparr>get_choices :=
                (get_choices stub_trace)(''a'' \<mapsto> Fin 1, ''b'' \<mapsto> Fin 2)\<rparr>,
            spy_model, spy_proposal, (), stub_obs),
           stub_trace\<lparr>get_choices :=
                (get_choices stub_trace)(''a'' \<mapsto> Fin 1, ''b'' \<mapsto> Fin 2)\<rparr>)"
proof -
  let ?t = "stub_trace\<lparr>get_choices :=
                (get_choices stub_trace)(''a'' \<mapsto> Fin 1, ''b'' \<mapsto> Fin 2)\<rparr>"
  have k1: "threefry_split spy_jax 0 2 0 = 1" and k2: "threefry_split spy_jax 0 2 1 = 2"
    and k5: "threefry_split spy_jax 1 2 1 = 5"
    by (simp_all add: spy_jax_def)
  have u5: "uniform spy_jax 5 = Fin (1 / 10)" and u2: "uniform spy_jax 2 = Fin (9 / 10)"
    by (simp_all add: spy_jax_def)
  have p: "propose spy_proposal (threefry_split spy_jax 0 2 0) (stub_trace, ())
             = Some ([''a'' \<mapsto> Fin 1], Fin 0, Fin 1)"
    using k1 by (simp add: spy_proposal_def)
  have u: "update spy_model (threefry_split spy_jax 0 2 1) stub_trace [''a'' \<mapsto> Fin 1]
             (no_change (get_args stub_trace))
     = Some (?t, Fin (- 1), Diff (Fin 4) NoChange, get_choices stub_trace |` {''a''})"
    using k2 by (simp add: spy_model_def spy_update_def stub_retval)
  have a: "assess spy_proposal c args = Some (Fin 0, Fin 0)" for c args
    by (simp add: spy_proposal_def)
  have un: "uniform spy_jax (threefry_split spy_jax (threefry_split spy_jax 0 2 0) 2 1)
              = Fin (1 / 10)"
    by (simp only: k1 k5 u5)
  have td: "trace_treedef stub_pytree ?t = trace_treedef stub_pytree stub_trace"
    by (auto simp: trace_treedef_def stub_trace_def)
  have al: "jnp_add spy_jax (jnp_sub spy_jax (Fin (- 1)) (Fin 0)) (Fin 0) = Fin (- 1)"
    by (simp add: jnp_add_def jnp_sub_def fsub_def spy_jax_def)
  have acc: "flt (jnp_log spy_jax (Fin (1 / 10))) (Fin (- 1))"
    using ln_tenth by (simp add: jnp_log_def spy_jax_def)
  have rej: "\<not> flt (jnp_log spy_jax (Fin (9 / 10))) (Fin (- 1))"
    using ln_nine_tenths by (simp add: jnp_log_def spy_jax_def)
  have "metropolis_hastings_move spy_jax stub_pytree
       (stub_trace, spy_model, spy_proposal, (), stub_obs) 0 =
     Some ((?t, spy_model, spy_proposal, (), stub_obs), ?t)"
    using mh_move_eval [OF p u a un td, of stub_obs] acc by (simp add: al)
  with k1 k2 k5 u5 u2 rej show ?thesis by simp
qed

section \<open>The frame of a step\<close>

text \<open>
  C6. The chain state that one kernel application returns differs from its input in the
  slot of the current trace only: the model, the proposal, the proposal arguments and the
  observation constraints are returned as they came, and the trace in the slot of the
  current trace is the trace emitted as the record of the step.
\<close>

theorem kernel_frame:
  assumes "metropolis_hastings_move J T (trace, model, proposal, proposal_args, observations) key
             = Some (s', record)"
  shows "s' = (record, model, proposal, proposal_args, observations)"
  using assms by (rule mh_move_state)

theorem kernel_frame_witness:
  "metropolis_hastings_move stub_jax stub_pytree
       (stub_trace, stub_model, stub_proposal, (), stub_obs) 0
     = Some ((stub_accepted, stub_model, stub_proposal, (), stub_obs), stub_accepted) \<and>
   (stub_accepted, stub_model, stub_proposal, (), stub_obs)
     = (stub_accepted, stub_model, stub_proposal, (), stub_obs)"
proof -
  note step = stub_step_0 [of stub_obs 0]
  from kernel_frame [OF step] step show ?thesis by simp
qed

section \<open>An infinite acceptance ratio\<close>

lemma flt_log_PosInf:
  assumes "0 \<le> u"
  shows "flt (flog L (Fin u)) PosInf"
  using assms by simp

text \<open>
  C7. If the acceptance log-ratio \<open>w - fw + bw\<close> evaluates to plus infinity, the kernel
  returns the candidate trace whatever the uniform draw is, a value of \<open>[0, 1)\<close>. The
  candidate trace has the tree structure of the current trace, as the conditional of the
  kernel requires of its two branches.
\<close>

theorem kernel_accepts_at_infinity:
  assumes "propose proposal (threefry_split J key 2 0) (trace, proposal_args)
             = Some (fwd_choices, fw, r1)"
    and "update model (threefry_split J key 2 1) trace fwd_choices (no_change (get_args trace))
           = Some (new_trace, w, r2, discard)"
    and "assess proposal discard (new_trace, proposal_args) = Some (bw, r3)"
    and "trace_treedef T new_trace = trace_treedef T trace"
    and "jnp_add J (jnp_sub J w fw) bw = PosInf"
    and "uniform J (threefry_split J (threefry_split J key 2 0) 2 1) = Fin u"
    and "0 \<le> u" and "u < 1"
  shows "metropolis_hastings_move J T (trace, model, proposal, proposal_args, observations) key =
           Some ((new_trace, model, proposal, proposal_args, observations), new_trace)"
proof -
  have "flt (jnp_log J (Fin u)) PosInf"
    unfolding jnp_log_def using \<open>0 \<le> u\<close> by (rule flt_log_PosInf)
  then show ?thesis
    by (simp add: mh_move_eval [OF assms(1-3) assms(6) assms(4)] assms(5))
qed

text \<open>
  On the stubs, with a backward weight of plus infinity; and with a candidate trace of
  another tree structure, where the kernel raises at any acceptance ratio.
\<close>

theorem kernel_accepts_at_infinity_witness:
  "propose inf_proposal (threefry_split stub_jax 0 2 0) (stub_trace, ())
     = Some ([''a'' \<mapsto> Fin 1], Fin (1 / 2), Fin 1) \<and>
   update stub_model (threefry_split stub_jax 0 2 1) stub_trace [''a'' \<mapsto> Fin 1]
       (no_change (get_args stub_trace))
     = Some (stub_accepted, Fin 1, Diff (Fin 4) NoChange, get_choices stub_trace |` {''a''}) \<and>
   assess inf_proposal (get_choices stub_trace |` {''a''}) (stub_accepted, ())
     = Some (PosInf, Fin 1) \<and>
   trace_treedef stub_pytree stub_accepted = trace_treedef stub_pytree stub_trace \<and>
   jnp_add stub_jax (jnp_sub stub_jax (Fin 1) (Fin (1 / 2))) PosInf = PosInf \<and>
   uniform stub_jax (threefry_split stub_jax (threefry_split stub_jax 0 2 0) 2 1) = Fin (2 / 5) \<and>
   (0::real) \<le> 2 / 5 \<and> (2 / 5 :: real) < 1 \<and>
   metropolis_hastings_move stub_jax stub_pytree
       (stub_trace, stub_model, inf_proposal, (), stub_obs) 0 =
     Some ((stub_accepted, stub_model, inf_proposal, (), stub_obs), stub_accepted) \<and>
   metropolis_hastings_move stub_jax stub_pytree
       (stub_trace, z_model, inf_proposal, (), stub_obs) 0 = None"
proof -
  have p: "propose inf_proposal k (stub_trace, ())
     = Some ([''a'' \<mapsto> Fin 1], Fin (1 / 2), Fin 1)" for k
    by (simp add: inf_proposal_def)
  note u = stub_update_0 [of "threefry_split stub_jax 0 2 1" "no_change (get_args stub_trace)"]
  have a: "assess inf_proposal c args = Some (PosInf, Fin 1)" for c args
    by (simp add: inf_proposal_def)
  note td = stub_accepted_treedef
  have al: "jnp_add stub_jax (jnp_sub stub_jax (Fin 1) (Fin (1 / 2))) PosInf = PosInf"
    by (simp add: jnp_add_def jnp_sub_def fsub_def stub_jax_def)
  have un: "uniform stub_jax (threefry_split stub_jax (threefry_split stub_jax 0 2 0) 2 1)
     = Fin (2 / 5)"
    by (rule stub_uniform)
  have b0: "(0::real) \<le> 2 / 5" and b1: "(2 / 5 :: real) < 1" by simp_all
  let ?t = "stub_trace\<lparr>get_choices := (get_choices stub_trace ++ [''a'' \<mapsto> Fin 1])(''z'' \<mapsto> Fin 0)\<rparr>"
  have uz: "update z_model k stub_trace [''a'' \<mapsto> Fin 1] d
     = Some (?t, Fin 1, Diff (Fin 4) NoChange, get_choices stub_trace |` {''a''})" for k d
    by (simp add: z_model_def z_update_def stub_retval)
  have "''z'' \<in> dom (get_choices ?t)" by simp
  moreover have "''z'' \<notin> dom (get_choices stub_trace)" by (simp add: stub_trace_def)
  ultimately have ne: "trace_treedef stub_pytree ?t \<noteq> trace_treedef stub_pytree stub_trace"
    unfolding trace_treedef_def by (metis snd_conv)
  have z: "metropolis_hastings_move stub_jax stub_pytree
       (stub_trace, z_model, inf_proposal, (), stub_obs) 0 = None"
    by (rule mh_move_raises [OF p uz a ne])
  from kernel_accepts_at_infinity [OF p u a td al un b0 b1, of stub_obs] p u a td al un b0 b1 z
  show ?thesis by simp
qed

section \<open>The observations in a step\<close>

text \<open>
  C8. For every seed and every two chain states that differ in the observation constraints
  only, one kernel application returns the same record and the same current trace in both:
  the kernel threads the observations through and never reads them.
\<close>

theorem kernel_ignores_observations:
  "map_option snd
     (metropolis_hastings_move J T (trace, model, proposal, proposal_args, obs) key) =
   map_option snd
     (metropolis_hastings_move J T (trace, model, proposal, proposal_args, obs') key) \<and>
   map_option (fst \<circ> fst)
     (metropolis_hastings_move J T (trace, model, proposal, proposal_args, obs) key) =
   map_option (fst \<circ> fst)
     (metropolis_hastings_move J T (trace, model, proposal, proposal_args, obs') key)"
  by (auto simp: metropolis_hastings_move_def split2 Let_def split: Option.bind_split)

section \<open>The entry point\<close>

text \<open>
  C9. For every model, model arguments, observation constraints, seed and number of
  samples, the entry point calls the importance sampler of the model once, on the
  observation constraints and the model arguments, and runs the driver, with the proposal
  of the notebook, from the trace that this call returned.
\<close>

theorem entry_point_initial_trace:
  "run_inference J T G model model_args obs key num_samples =
     (case importance model (threefry_split J key 3 1) obs model_args of
        None \<Rightarrow> None
      | Some (tr, w) \<Rightarrow>
          mh J T tr model (prop_gen G) () obs (threefry_split J key 3 2) num_samples)"
  by (rule run_inference_unfold)

lemma mh_move_same_update:
  assumes "update m' = update m"
  shows "metropolis_hastings_move J T (t, m', p, pa, ob) k =
           map_option (\<lambda>(s, r). ((r, m', p, pa, ob), r))
             (metropolis_hastings_move J T (t, m, p, pa, ob) k)"
  using assms
  by (auto simp: metropolis_hastings_move_def split2 Let_def split: Option.bind_split)

lemma scan_same_update:
  assumes "update m' = update m"
  shows "map_option (\<lambda>(s, ys). (fst s, ys))
           (scan_loop (mh_args_treedef T) (metropolis_hastings_move J T) (t, m', p, pa, ob) [] ks) =
         map_option (\<lambda>(s, ys). (fst s, ys))
           (scan_loop (mh_args_treedef T) (metropolis_hastings_move J T) (t, m, p, pa, ob) [] ks)"
proof (induction ks arbitrary: t)
  case Nil
  show ?case by simp
next
  case (Cons k ks)
  let ?loop = "scan_loop (mh_args_treedef T) (metropolis_hastings_move J T)"
  show ?case
  proof (cases "metropolis_hastings_move J T (t, m, p, pa, ob) k")
    case None
    then show ?thesis using mh_move_same_update [OF assms, of J T t p pa ob k]
      by (simp add: mh_loop_Cons)
  next
    case (Some q)
    obtain s r where q: "q = (s, r)" by (cases q)
    have s: "s = (r, m, p, pa, ob)"
      using mh_move_state [of J T t m p pa ob k s r] Some q by simp
    have m': "metropolis_hastings_move J T (t, m', p, pa, ob) k = Some ((r, m', p, pa, ob), r)"
      using mh_move_same_update [OF assms, of J T t p pa ob k] Some q by simp
    have pre: "map_option (\<lambda>(s, ys). (fst s, ys)) (map_option (\<lambda>(c, ys). (c, r # ys)) A) =
               map_option (\<lambda>(a, ys). (a, r # ys)) (map_option (\<lambda>(s, ys). (fst s, ys)) A)"
      for A :: "(('a, 'b, 'c) mh_args \<times> 'b trace list) option"
      by (cases A) auto
    have "map_option (\<lambda>(s, ys). (fst s, ys)) (?loop (t, m', p, pa, ob) [] (k # ks)) =
          map_option (\<lambda>(a, ys). (a, r # ys))
            (map_option (\<lambda>(s, ys). (fst s, ys)) (?loop (r, m', p, pa, ob) [] ks))"
      using m' by (simp add: mh_loop_Cons pre)
    also have "\<dots> =
          map_option (\<lambda>(a, ys). (a, r # ys))
            (map_option (\<lambda>(s, ys). (fst s, ys)) (?loop (r, m, p, pa, ob) [] ks))"
      by (simp only: Cons.IH [of r])
    also have "\<dots> =
          map_option (\<lambda>(s, ys). (fst s, ys)) (?loop (t, m, p, pa, ob) [] (k # ks))"
      using Some q s by (simp add: mh_loop_Cons pre)
    finally show ?thesis .
  qed
qed

lemma mh_same_update:
  assumes "update m' = update m"
  shows "mh J T t m' p pa ob k n = mh J T t m p pa ob k n"
proof (cases "metropolis_hastings_move J T (t, m, p, pa, ob) k")
  case None
  then show ?thesis using mh_move_same_update [OF assms, of J T t p pa ob k]
    by (simp add: mh_scan)
next
  case (Some q)
  then show ?thesis
    using mh_move_same_update [OF assms, of J T t p pa ob k]
      scan_same_update [OF assms, of T J t p pa ob "jax_random_split J k n"]
    by (simp add: mh_scan)
qed

text \<open>
  C10. The entry point drops the importance weight of the initialization: for two models
  with the same update whose importance samplers return, for the seed, the constraints and
  the arguments of the call, the same trace with different weights, the entry point returns
  the same records and the same final trace.
\<close>

theorem entry_point_discards_weight:
  assumes "importance m (threefry_split J key 3 1) obs model_args = Some (tr, w)"
    and "importance m' (threefry_split J key 3 1) obs model_args = Some (tr, w')"
    and "update m' = update m"
  shows "run_inference J T G m' model_args obs key num_samples =
         run_inference J T G m model_args obs key num_samples"
  using assms(1,2) mh_same_update [OF assms(3)]
  by (simp add: run_inference_unfold)

lemma stub_importance_trace: "stub_importance k stub_obs [Fin 5] = Some (stub_trace, Fin 0)"
  by (simp add: stub_importance_def stub_obs_def stub_trace_def)

text \<open>On the stubs, with the weights \<open>0\<close> and \<open>7\<close> and one step of the chain.\<close>

theorem entry_point_discards_weight_witness:
  "importance stub_model (threefry_split stub_jax 0 3 1) stub_obs [Fin 5]
     = Some (stub_trace, Fin 0) \<and>
   importance stub_model_w (threefry_split stub_jax 0 3 1) stub_obs [Fin 5]
     = Some (stub_trace, Fin 7) \<and>
   update stub_model_w = update stub_model \<and>
   run_inference stub_jax stub_pytree stub_genjax stub_model_w [Fin 5] stub_obs 0 1 =
     Some (stub_accepted, [stub_accepted])"
proof -
  have i1: "importance stub_model (threefry_split stub_jax 0 3 1) stub_obs [Fin 5]
     = Some (stub_trace, Fin 0)"
    by (simp add: stub_model_def stub_importance_trace)
  have i2: "importance stub_model_w (threefry_split stub_jax 0 3 1) stub_obs [Fin 5]
     = Some (stub_trace, Fin 7)"
    by (simp add: stub_model_w_def stub_importance_trace)
  have u: "update stub_model_w = update stub_model"
    by (simp add: stub_model_w_def)
  have "mh stub_jax stub_pytree stub_trace stub_model (prop_gen stub_genjax) () stub_obs k 1
          = Some (stub_accepted, [stub_accepted])" for k
    by (simp add: mh_scan jax_random_split_def mh_loop_Cons stub_prop_step)
  then have r: "run_inference stub_jax stub_pytree stub_genjax stub_model [Fin 5] stub_obs 0 1 =
     Some (stub_accepted, [stub_accepted])"
    using i1 by (simp add: run_inference_unfold)
  from entry_point_discards_weight [OF i1 i2 u, of stub_pytree stub_genjax 1] r i1 i2 u
  show ?thesis by simp
qed


end
